theory Spec2Isabelle
  imports
    Complex_Main
    "HOL-Library.Char_ord"
    "HOL-Library.List_Lexorder"
    "HOL-Library.Product_Lexorder"
    "HOL-Library.Multiset"
begin

section \<open>The fault report of \<open>main.py\<close>\<close>

text \<open>
  \<open>main.py\<close> reads \<open>faults.csv\<close> into a pandas data frame, cleans it, groups it, and
  writes a workbook with one sheet per machine and three summary sheets. Every step of
  \<open>process_faults_file\<close> is a call into pandas, so the embedding gives each call the
  meaning pandas (before 3.0, the versions the script was written for) documents for it,
  with the defaults the script leaves in place:
  \<^item> \<open>pd.to_numeric(..., errors='coerce')\<close> turns what it cannot read into NaN;
  \<^item> \<open>astype(str)\<close> turns every cell into text, a missing cell into the text \<open>nan\<close>;
  \<^item> \<open>groupby\<close> has \<open>sort=True\<close>: its groups come out in ascending order of the key;
  \<^item> \<open>unique\<close> lists values in order of first appearance;
  \<^item> \<open>sort_values\<close> has \<open>kind='quicksort'\<close>, which is not a stable sort.
  A Python string is a \<^typ>\<open>string\<close>, one \<^typ>\<open>char\<close> for each character; strings are
  compared character by character, as Python compares them. Numbers are exact rationals:
  the rounding of 64-bit floats is outside the model. Column widths and the pixels of the
  charts are left out; a chart is the series and labels it is drawn from.
\<close>

subsection \<open>Sheet names\<close>

text \<open>The character class of \<^verbatim>\<open>re.sub(r'[\\/*?[\]:]', '', name)\<close>.\<close>

definition invalid_chars :: "char set" where
  "invalid_chars =
     {CHR 0x5C, CHR ''/'', CHR ''*'', CHR ''?'', CHR ''['', CHR '']'', CHR '':''}"

text \<open>The characters \<open>str.strip()\<close> removes, among the first 256 code points.\<close>

definition isspace :: "char \<Rightarrow> bool" where
  "isspace c \<longleftrightarrow>
     (of_char c :: nat) \<in> {9, 10, 11, 12, 13, 28, 29, 30, 31, 32, 133, 160}"

definition strip :: "string \<Rightarrow> string" where
  "strip s = rev (dropWhile isspace (rev (dropWhile isspace s)))"

definition sanitize_sheet_name :: "string \<Rightarrow> string" where
  "sanitize_sheet_name name =
     (let sanitized = strip (filter (\<lambda>c. c \<notin> invalid_chars) name)
      in take 25 sanitized)"

subsection \<open>Rows of the input and their cleaning\<close>

text \<open>
  A cell of the two counter columns, as \<open>pd.to_numeric\<close> sees it: a value it reads as the
  number \<open>v\<close>, a text it cannot read, or an empty cell.
\<close>

datatype numcell = Number rat | NotNumber string | EmptyCell

text \<open>
  A cell of the four describing columns is empty (\<open>None\<close>) or holds a value, given by the
  text \<open>str\<close> renders it as.
\<close>

record raw_row =
  raw_MachineName :: "string option"
  raw_StateDesc :: "string option"
  raw_MsgDesc :: "string option"
  raw_MsgCode :: "string option"
  raw_TotalDuration :: numcell
  raw_TotalOccur :: numcell

record fault_row =
  D_MachineName :: string
  D_StateDesc :: string
  D_MsgCode :: string
  D_MsgDesc :: string
  Fault_Description :: string
  T_TotalDuration :: rat
  T_TotalOccur :: rat

text \<open>\<open>pd.to_numeric(column, errors='coerce')\<close>, on one cell; \<open>None\<close> is NaN.\<close>

fun to_numeric :: "numcell \<Rightarrow> rat option" where
  "to_numeric (Number v) = Some v"
| "to_numeric (NotNumber s) = None"
| "to_numeric EmptyCell = None"

text \<open>\<open>astype(str)\<close> on one cell: the float NaN of a missing cell becomes the text \<open>nan\<close>.\<close>

fun astype_str :: "string option \<Rightarrow> string option" where
  "astype_str None = Some ''nan''"
| "astype_str (Some s) = Some s"

text \<open>\<open>fillna(value)\<close> on one cell.\<close>

fun fillna :: "string \<Rightarrow> string option \<Rightarrow> string" where
  "fillna v None = v"
| "fillna v (Some s) = s"

text \<open>
  Lines 70 to 84 on one row: both counters are coerced, a row with NaN in either is
  dropped (\<open>None\<close>), the four describing columns become text, and the label is built.
\<close>

definition normalize_row :: "raw_row \<Rightarrow> fault_row option" where
  "normalize_row r =
     (case (to_numeric (raw_TotalDuration r), to_numeric (raw_TotalOccur r)) of
        (Some d, Some n) \<Rightarrow>
          (let machine = fillna ''Unknown'' (astype_str (raw_MachineName r));
               state = fillna ''Unknown'' (astype_str (raw_StateDesc r));
               desc = fillna ''Unknown'' (astype_str (raw_MsgDesc r));
               code = fillna ''Unknown'' (astype_str (raw_MsgCode r))
           in Some \<lparr>D_MachineName = machine, D_StateDesc = state, D_MsgCode = code,
                    D_MsgDesc = desc, Fault_Description = desc @ '' ('' @ code @ '')'',
                    T_TotalDuration = d, T_TotalOccur = n\<rparr>)
      | _ \<Rightarrow> None)"

definition normalize :: "raw_row list \<Rightarrow> fault_row list" where
  "normalize rows = List.map_filter normalize_row rows"

subsection \<open>Grouping\<close>

type_synonym agg_key = "string \<times> string \<times> string \<times> string \<times> string"

type_synonym agg_row = "agg_key \<times> rat"

definition key_of :: "fault_row \<Rightarrow> agg_key" where
  "key_of r =
     (D_MachineName r, D_StateDesc r, D_MsgCode r, D_MsgDesc r, Fault_Description r)"

definition machine_of :: "agg_row \<Rightarrow> string" where
  "machine_of a = fst (fst a)"

text \<open>
  \<open>df.groupby(keys)\<close>: one group for each distinct key, the groups in ascending order of
  the key. \<open>.agg('sum')\<close> adds a column over each group, \<open>.size()\<close> counts its rows.
\<close>

definition group_keys :: "('r \<Rightarrow> 'k::linorder) \<Rightarrow> 'r list \<Rightarrow> 'k list" where
  "group_keys key df = sort (remdups (map key df))"

definition groupby_sum :: "('r \<Rightarrow> 'k::linorder) \<Rightarrow> ('r \<Rightarrow> rat) \<Rightarrow> 'r list \<Rightarrow> ('k \<times> rat) list" where
  "groupby_sum key val df =
     map (\<lambda>k. (k, sum_list (map val (filter (\<lambda>r. key r = k) df)))) (group_keys key df)"

definition groupby_size :: "('r \<Rightarrow> 'k::linorder) \<Rightarrow> 'r list \<Rightarrow> ('k \<times> nat) list" where
  "groupby_size key df =
     map (\<lambda>k. (k, length (filter (\<lambda>r. key r = k) df))) (group_keys key df)"

definition aggregated_df_total_duration :: "fault_row list \<Rightarrow> agg_row list" where
  "aggregated_df_total_duration df = groupby_sum key_of T_TotalDuration df"

definition aggregated_df_total_occur :: "fault_row list \<Rightarrow> agg_row list" where
  "aggregated_df_total_occur df = groupby_sum key_of T_TotalOccur df"

definition unique_faults_per_station :: "fault_row list \<Rightarrow> (string \<times> nat) list" where
  "unique_faults_per_station df = groupby_size D_MachineName df"

definition total_duration_per_station :: "fault_row list \<Rightarrow> (string \<times> rat) list" where
  "total_duration_per_station df =
     groupby_sum machine_of snd (aggregated_df_total_duration df)"

text \<open>\<open>Series.unique()\<close>: each value once, at the place of its first appearance.\<close>

primrec unique :: "'a list \<Rightarrow> 'a list" where
  "unique [] = []"
| "unique (x # xs) = x # filter (\<lambda>y. y \<noteq> x) (unique xs)"

definition unique_machines :: "fault_row list \<Rightarrow> string list" where
  "unique_machines df = unique (map machine_of (aggregated_df_total_duration df))"

subsection \<open>Sorting and the ten best\<close>

text \<open>
  \<open>sort_values(by=column, ascending=False)\<close> asks numpy for the positions of the column's
  values in descending order and takes the rows at those positions. The index sort is a
  parameter \<open>argsort\<close>: the script leaves \<open>kind\<close> at quicksort, so all that is known of it
  is \<open>argsort_desc\<close>: it returns every position once, largest value first.
\<close>

definition sort_values :: "(rat list \<Rightarrow> nat list) \<Rightarrow> ('r \<Rightarrow> rat) \<Rightarrow> 'r list \<Rightarrow> 'r list" where
  "sort_values argsort by df = map (\<lambda>i. df ! i) (argsort (map by df))"

definition argsort_desc :: "(rat list \<Rightarrow> nat list) \<Rightarrow> bool" where
  "argsort_desc argsort \<longleftrightarrow>
     (\<forall>vs. mset (argsort vs) = mset [0..<length vs]
         \<and> sorted_wrt (\<lambda>a b. b \<le> a) (map (\<lambda>i. vs ! i) (argsort vs)))"

text \<open>
  An index sort that keeps equal values in their order, as \<open>kind='stable'\<close> would: the
  positions sorted by descending value, then by position.
\<close>

definition stable_argsort :: "rat list \<Rightarrow> nat list" where
  "stable_argsort vs = sort_key (\<lambda>i. (- (vs ! i), i)) [0..<length vs]"

text \<open>
  Lines 115 to 120: the rows of one machine, sorted by the summed column, descending,
  cut after ten.
\<close>

definition top10 :: "(rat list \<Rightarrow> nat list) \<Rightarrow> agg_row list \<Rightarrow> string \<Rightarrow> agg_row list" where
  "top10 argsort agg machine =
     take 10 (sort_values argsort snd (filter (\<lambda>a. machine_of a = machine) agg))"

subsection \<open>The workbook\<close>

datatype xvalue = Str string | Num rat

type_synonym frame = "string list \<times> xvalue list list"

record chart =
  chart_title :: string
  chart_x_label :: string
  chart_y_label :: string
  chart_index :: "string list"
  chart_values :: "rat list"

datatype ws_op =
    Write_frame nat "string list" "xvalue list list"
  | Write_cell nat nat string
  | Write_url nat nat string string
  | Insert_image nat nat string chart
  | Set_zoom nat

text \<open>
  The workbook is the list of its sheet names, in the order of the sheets, what was
  written (sheet name and operation, in the order of the calls), and the position of the
  active sheet. The writer is taken to accept every sheet name.
\<close>

record workbook =
  sheetnames :: "string list"
  written :: "(string \<times> ws_op) list"
  active :: nat

definition new_workbook :: workbook where
  "new_workbook = \<lparr>sheetnames = [], written = [], active = 0\<rparr>"

text \<open>
  \<open>df.to_excel(writer, sheet_name=name, startrow=n)\<close>: the sheet of that name is created
  behind the others unless the workbook has it, and the frame is written into it.
\<close>

definition to_excel :: "frame \<Rightarrow> string \<Rightarrow> nat \<Rightarrow> workbook \<Rightarrow> workbook" where
  "to_excel fr name startrow wb =
     wb\<lparr>sheetnames :=
          (if name \<in> set (sheetnames wb) then sheetnames wb else sheetnames wb @ [name]),
        written := written wb @ [(name, Write_frame startrow (fst fr) (snd fr))]\<rparr>"

text \<open>A call on \<open>writer.sheets[name]\<close>.\<close>

definition on_sheet :: "string \<Rightarrow> ws_op \<Rightarrow> workbook \<Rightarrow> workbook" where
  "on_sheet name op wb = wb\<lparr>written := written wb @ [(name, op)]\<rparr>"

definition agg_columns :: "string \<Rightarrow> string list" where
  "agg_columns metric =
     [''D_MachineName'', ''D_StateDesc'', ''D_MsgCode'', ''D_MsgDesc'',
      ''Fault_Description'', metric]"

fun agg_cells :: "agg_row \<Rightarrow> xvalue list" where
  "agg_cells ((machine, state, code, desc, label), v) =
     [Str machine, Str state, Str code, Str desc, Str label, Num v]"

definition agg_frame :: "string \<Rightarrow> agg_row list \<Rightarrow> frame" where
  "agg_frame metric rows = (agg_columns metric, map agg_cells rows)"

text \<open>
  \<open>create_bar_chart(rows.set_index('Fault_Description')[metric], title, x, y)\<close>: the
  image is stood for by what it is drawn from.
\<close>

definition create_bar_chart :: "agg_row list \<Rightarrow> string \<Rightarrow> string \<Rightarrow> string \<Rightarrow> chart" where
  "create_bar_chart rows title x_label y_label =
     \<lparr>chart_title = title, chart_x_label = x_label, chart_y_label = y_label,
      chart_index = map (\<lambda>a. snd (snd (snd (snd (fst a))))) rows,
      chart_values = map snd rows\<rparr>"

text \<open>The body of the loop over the machines, lines 115 to 159.\<close>

definition write_machine ::
  "(rat list \<Rightarrow> nat list) \<Rightarrow> agg_row list \<Rightarrow> agg_row list \<Rightarrow>
   workbook \<times> (string \<times> string) list \<Rightarrow> string \<Rightarrow> workbook \<times> (string \<times> string) list" where
  "write_machine argsort agg_duration agg_occur st machine =
     (let machine_df_duration = top10 argsort agg_duration machine;
          machine_df_occurrences = top10 argsort agg_occur machine;
          sheet_name = sanitize_sheet_name machine;
          wb1 = to_excel (agg_frame ''T_TotalDuration'' machine_df_duration) sheet_name 1 (fst st);
          startrow = length machine_df_duration + 4;
          wb2 = to_excel (agg_frame ''T_TotalOccur'' machine_df_occurrences) sheet_name startrow wb1;
          wb3 = on_sheet sheet_name (Write_cell 0 0 ''Total Duration (Top 10)'') wb2;
          wb4 = on_sheet sheet_name
                  (Write_cell (startrow - 1) 0 ''Total Occurrences (Top 10)'') wb3;
          duration_image = create_bar_chart machine_df_duration
              (''Top 10 Durations for '' @ sheet_name) ''Fault Description'' ''Total Duration'';
          occurrences_image = create_bar_chart machine_df_occurrences
              (''Top 10 Occurrences for '' @ sheet_name) ''Fault Description''
              ''Total Occurrences'';
          wb5 = on_sheet sheet_name
                  (Insert_image 20 0 (sheet_name @ ''_duration.png'') duration_image) wb4;
          wb6 = on_sheet sheet_name
                  (Insert_image 20 10 (sheet_name @ ''_occurrences.png'') occurrences_image) wb5;
          wb7 = on_sheet sheet_name (Set_zoom 50) wb6
      in (wb7, snd st @ [(machine, sheet_name)]))"

text \<open>The links of the index sheet, lines 169 to 171.\<close>

definition index_links :: "(string \<times> string) list \<Rightarrow> (string \<times> ws_op) list" where
  "index_links index_data =
     concat (map (\<lambda>(i, (machine, sheet)).
                    [(''Index'', Write_url (i + 1) 1 (''internal:'' @ [CHR 0x27] @ sheet @ [CHR 0x27] @ ''!A1'') sheet),
                     (''Index'', Write_cell (i + 1) 0 machine)])
                 (enumerate 0 index_data))"

definition index_frame :: "(string \<times> string) list \<Rightarrow> frame" where
  "index_frame index_data =
     ([''Machine Name'', ''Sheet Name''], map (\<lambda>(machine, sheet). [Str machine, Str sheet]) index_data)"

definition unique_faults_frame :: "(string \<times> nat) list \<Rightarrow> frame" where
  "unique_faults_frame rows =
     ([''D_MachineName'', ''Unique Faults''], map (\<lambda>(machine, n). [Str machine, Num (of_nat n)]) rows)"

definition total_duration_frame :: "(string \<times> rat) list \<Rightarrow> frame" where
  "total_duration_frame rows =
     ([''D_MachineName'', ''T_TotalDuration''], map (\<lambda>(machine, v). [Str machine, Num v]) rows)"

text \<open>The loop and what it leaves: the workbook and \<open>index_data\<close>.\<close>

definition machine_sheets ::
  "(rat list \<Rightarrow> nat list) \<Rightarrow> fault_row list \<Rightarrow> workbook \<times> (string \<times> string) list" where
  "machine_sheets argsort df =
     foldl (write_machine argsort (aggregated_df_total_duration df) (aggregated_df_total_occur df))
       (new_workbook, []) (unique_machines df)"

definition index_data :: "(rat list \<Rightarrow> nat list) \<Rightarrow> fault_row list \<Rightarrow> (string \<times> string) list" where
  "index_data argsort df = snd (machine_sheets argsort df)"

text \<open>The first \<open>with\<close> block, lines 106 to 192: what the workbook holds when it is saved.\<close>

definition write_pass :: "(rat list \<Rightarrow> nat list) \<Rightarrow> fault_row list \<Rightarrow> workbook" where
  "write_pass argsort df =
     (let sorted_unique_faults_per_station =
            sort_values argsort (\<lambda>r. of_nat (snd r)) (unique_faults_per_station df);
          sorted_total_duration_per_station =
            sort_values argsort snd (total_duration_per_station df);
          (wb, index) = machine_sheets argsort df;
          wb1 = to_excel (index_frame index) ''Index'' 0 wb;
          wb2 = wb1\<lparr>written := written wb1 @ index_links index\<rparr>;
          wb3 = to_excel (unique_faults_frame sorted_unique_faults_per_station)
                  ''Unique Faults'' 0 wb2;
          wb4 = to_excel (total_duration_frame sorted_total_duration_per_station)
                  ''Total Duration'' 0 wb3;
          wb5 = on_sheet ''Index'' (Set_zoom 50) wb4;
          wb6 = on_sheet ''Unique Faults'' (Set_zoom 50) wb5;
          wb7 = on_sheet ''Total Duration'' (Set_zoom 50) wb6
      in wb7)"

datatype error = ValueError

text \<open>\<open>list.index(x)\<close>: the first position of \<open>x\<close>, or a ValueError.\<close>

fun list_index :: "'a \<Rightarrow> 'a list \<Rightarrow> error + nat" where
  "list_index x [] = Inl ValueError"
| "list_index x (y # ys) =
     (if y = x then Inr 0
      else case list_index x ys of Inl e \<Rightarrow> Inl e | Inr i \<Rightarrow> Inr (Suc i))"

text \<open>
  Lines 199 to 201: the saved workbook is opened again and
  \<open>book.active = book.sheetnames.index('Index')\<close> is assigned.
\<close>

definition set_index_active :: "workbook \<Rightarrow> error + workbook" where
  "set_index_active wb =
     (case list_index ''Index'' (sheetnames wb) of
        Inl e \<Rightarrow> Inl e
      | Inr i \<Rightarrow> Inr (wb\<lparr>active := i\<rparr>))"

definition process_faults_file :: "(rat list \<Rightarrow> nat list) \<Rightarrow> raw_row list \<Rightarrow> error + workbook" where
  "process_faults_file argsort rows = set_index_active (write_pass argsort (normalize rows))"

subsection \<open>What the specification says, in its own words\<close>

text \<open>
  The unique-fault count of the specification: the number of distinct aggregate keys
  whose machine is the given one.
\<close>

definition spec_unique_fault_count :: "fault_row list \<Rightarrow> string \<Rightarrow> nat" where
  "spec_unique_fault_count df machine =
     length (remdups (filter (\<lambda>k. fst k = machine) (map key_of df)))"

text \<open>The machines in the order they first appear in the cleaned rows.\<close>

definition first_seen_machines :: "fault_row list \<Rightarrow> string list" where
  "first_seen_machines df = unique (map D_MachineName df)"

text \<open>
  The ranked list of the specification: the aggregate rows of a machine in the order
  their keys first appear in the cleaned rows, sorted by descending sum with a stable
  sort (\<open>sort_key\<close> is an insertion sort), cut after ten.
\<close>

definition first_seen_rows :: "(fault_row \<Rightarrow> rat) \<Rightarrow> fault_row list \<Rightarrow> string \<Rightarrow> agg_row list" where
  "first_seen_rows val df machine =
     map (\<lambda>k. (k, sum_list (map val (filter (\<lambda>r. key_of r = k) df))))
       (filter (\<lambda>k. fst k = machine) (unique (map key_of df)))"

definition spec_top10 :: "(fault_row \<Rightarrow> rat) \<Rightarrow> fault_row list \<Rightarrow> string \<Rightarrow> agg_row list" where
  "spec_top10 val df machine = take 10 (sort_key (\<lambda>a. - snd a) (first_seen_rows val df machine))"


subsection \<open>Inputs used below\<close>

text \<open>A row of the file with its four describing cells filled: machine, state, code,
  description, duration, occurrences.\<close>

definition csv_row :: "string \<Rightarrow> string \<Rightarrow> string \<Rightarrow> string \<Rightarrow> numcell \<Rightarrow> numcell \<Rightarrow> raw_row" where
  "csv_row machine state code desc duration occur =
     \<lparr>raw_MachineName = Some machine, raw_StateDesc = Some state, raw_MsgDesc = Some desc,
      raw_MsgCode = Some code, raw_TotalDuration = duration, raw_TotalOccur = occur\<rparr>"

text \<open>The three rows of the specification's scenario.\<close>

definition scenario_rows :: "raw_row list" where
  "scenario_rows =
     [csv_row ''M1'' ''S'' ''c1'' ''desc1'' (Number 10) (Number 2),
      csv_row ''M1'' ''S'' ''c1'' ''desc1'' (Number 5) (Number 1),
      csv_row ''M2'' ''S'' ''c2'' ''desc2'' (NotNumber ''bad'') (Number 1)]"


text \<open>A row with numbers in both counters and nothing in the describing cells.\<close>

definition unnamed_row :: raw_row where
  "unnamed_row =
     \<lparr>raw_MachineName = None, raw_StateDesc = None, raw_MsgDesc = None,
      raw_MsgCode = None, raw_TotalDuration = Number 1, raw_TotalOccur = Number 1\<rparr>"

text \<open>Machine \<open>B\<close> reported before machine \<open>A\<close>.\<close>

definition b_before_a :: "raw_row list" where
  "b_before_a =
     [csv_row ''B'' ''S'' ''c1'' ''d'' (Number 1) (Number 1),
      csv_row ''A'' ''S'' ''c1'' ''d'' (Number 1) (Number 1)]"

text \<open>Two faults of one machine with equal sums, the later code reported first.\<close>

definition tie_rows :: "raw_row list" where
  "tie_rows =
     [csv_row ''M'' ''S'' ''c2'' ''d'' (Number 5) (Number 1),
      csv_row ''M'' ''S'' ''c1'' ''d'' (Number 5) (Number 1)]"



section \<open>Properties\<close>

subsection \<open>Sheet names and the index\<close>

lemma length_sanitize: "length (sanitize_sheet_name name) \<le> 25"
  by (simp add: sanitize_sheet_name_def)

lemma set_strip: "set (strip s) \<subseteq> set s"
proof -
  have "set (strip s) \<subseteq> set (rev (dropWhile isspace s))"
    unfolding strip_def using set_dropWhileD by fastforce
  also have "\<dots> \<subseteq> set s"
    using set_dropWhileD by fastforce
  finally show ?thesis .
qed

lemma set_sanitize: "set (sanitize_sheet_name name) \<inter> invalid_chars = {}"
proof -
  have "set (sanitize_sheet_name name) \<subseteq> set (strip (filter (\<lambda>c. c \<notin> invalid_chars) name))"
    by (simp add: sanitize_sheet_name_def set_take_subset)
  also have "\<dots> \<subseteq> set (filter (\<lambda>c. c \<notin> invalid_chars) name)"
    by (rule set_strip)
  finally show ?thesis by auto
qed

lemma set_unique [simp]: "set (unique xs) = set xs"
  by (induction xs) auto

lemma distinct_unique [simp]: "distinct (unique xs)"
  by (induction xs) auto

lemma sorted_unique: "sorted xs \<Longrightarrow> sorted (unique xs)"
  by (induction xs) (auto simp: sorted_wrt_filter)

lemma unique_snoc:
  "unique (xs @ [x]) = (if x \<in> set xs then unique xs else unique xs @ [x])"
  by (induction xs) auto

lemma sorted_map_fst: "sorted ks \<Longrightarrow> sorted (map fst ks)"
  by (induction ks) (auto simp: less_eq_prod_def)

lemma snd_write_machine:
  "snd (write_machine argsort d oc st m) = snd st @ [(m, sanitize_sheet_name m)]"
  by (simp add: write_machine_def Let_def)

lemma sheetnames_write_machine:
  "sheetnames (fst (write_machine argsort d oc st m)) =
     (if sanitize_sheet_name m \<in> set (sheetnames (fst st)) then sheetnames (fst st)
      else sheetnames (fst st) @ [sanitize_sheet_name m])"
  by (simp add: write_machine_def Let_def to_excel_def on_sheet_def)

lemma snd_foldl_write_machine:
  "snd (foldl (write_machine argsort d oc) st ms) =
     snd st @ map (\<lambda>m. (m, sanitize_sheet_name m)) ms"
  by (induction ms arbitrary: st) (simp_all add: snd_write_machine)

lemma sheetnames_foldl_write_machine:
  "sheetnames (fst st) = unique ns \<Longrightarrow>
   sheetnames (fst (foldl (write_machine argsort d oc) st ms)) =
     unique (ns @ map sanitize_sheet_name ms)"
proof (induction ms arbitrary: st ns)
  case Nil
  then show ?case by simp
next
  case (Cons m ms)
  have "sheetnames (fst (write_machine argsort d oc st m)) = unique (ns @ [sanitize_sheet_name m])"
    using Cons.prems by (simp add: sheetnames_write_machine unique_snoc)
  from Cons.IH [OF this] show ?case by simp
qed

lemma index_data_eq:
  "index_data argsort df = map (\<lambda>m. (m, sanitize_sheet_name m)) (unique_machines df)"
  by (simp add: index_data_def machine_sheets_def snd_foldl_write_machine)

lemma machine_sheetnames_eq:
  "sheetnames (fst (machine_sheets argsort df)) =
     unique (map sanitize_sheet_name (unique_machines df))"
  using sheetnames_foldl_write_machine [of "(new_workbook, [])" "[]"]
  by (simp add: machine_sheets_def new_workbook_def)

text \<open>
  C9: whatever the machine's name, its sheet name has at most 25 characters and none of
  \<^verbatim>\<open>\ / * ? [ ] :\<close>; the index holds each machine of the aggregated table once, with
  the one sheet name \<open>sanitize_sheet_name\<close> gives it.
\<close>

theorem sanitize_sheet_name_valid:
  "length (sanitize_sheet_name name) \<le> 25
   \<and> set (sanitize_sheet_name name) \<inter> invalid_chars = {}
   \<and> index_data argsort df = map (\<lambda>m. (m, sanitize_sheet_name m)) (unique_machines df)
   \<and> distinct (unique_machines df)"
  by (simp add: length_sanitize set_sanitize index_data_eq unique_machines_def)

subsection \<open>The order of the machines\<close>

lemma map_machine_of_groupby:
  "map machine_of (groupby_sum key_of val df) = map fst (group_keys key_of df)"
  by (simp add: groupby_sum_def machine_of_def comp_def)

text \<open>
  The machines of the aggregated table are listed as they first appear there, and the
  table is in ascending order of its keys: the list is the sorted list of the machines.
\<close>

lemma unique_machines_eq:
  "unique_machines df = sort (remdups (map D_MachineName df))"
proof -
  let ?ks = "group_keys key_of df"
  have s: "sorted (unique (map fst ?ks))"
    by (simp add: sorted_unique sorted_map_fst group_keys_def)
  have "set (unique (map fst ?ks)) = set (sort (remdups (map D_MachineName df)))"
    by (auto simp: group_keys_def key_of_def image_iff)
  with s have "unique (map fst ?ks) = sort (remdups (map D_MachineName df))"
    by (intro sorted_distinct_set_unique) simp_all
  then show ?thesis
    by (simp add: unique_machines_def aggregated_df_total_duration_def map_machine_of_groupby)
qed

text \<open>
  C4, as stated, fails: with machine \<open>B\<close> reported before machine \<open>A\<close>, the index lists
  \<open>A\<close> first.
\<close>

theorem index_order_counterexample:
  "map fst (index_data stable_argsort (normalize b_before_a)) = [''A'', ''B'']
   \<and> first_seen_machines (normalize b_before_a) = [''B'', ''A'']
   \<and> map fst (index_data stable_argsort (normalize b_before_a))
       \<noteq> first_seen_machines (normalize b_before_a)"
  by code_simp

text \<open>
  C4, amended: the index holds one entry for each distinct machine of the cleaned rows,
  in ascending order of the machine's name, and the sheets of the machines are created
  in that order (a sheet name that comes up a second time creates no sheet).
\<close>

theorem index_order_sorted:
  "index_data argsort (normalize rows) =
     map (\<lambda>m. (m, sanitize_sheet_name m)) (sort (remdups (map D_MachineName (normalize rows))))
   \<and> sheetnames (fst (machine_sheets argsort (normalize rows))) =
       unique (map sanitize_sheet_name (sort (remdups (map D_MachineName (normalize rows)))))"
  by (simp add: index_data_eq machine_sheetnames_eq unique_machines_eq)

subsection \<open>Cleaning\<close>

text \<open>
  C5 (the script does otherwise): a row with empty describing cells leaves the cleaning
  with the text \<open>nan\<close> in each of them, since \<open>astype(str)\<close> has turned the missing
  cells into text before \<open>fillna('Unknown')\<close> looks for them.
\<close>

theorem missing_cell_becomes_nan:
  "fillna ''Unknown'' (astype_str cell) = (case cell of None \<Rightarrow> ''nan'' | Some s \<Rightarrow> s)
   \<and> normalize [unnamed_row] =
     [\<lparr>D_MachineName = ''nan'', D_StateDesc = ''nan'', D_MsgCode = ''nan'',
       D_MsgDesc = ''nan'', Fault_Description = ''nan (nan)'',
       T_TotalDuration = 1, T_TotalOccur = 1\<rparr>]"
proof -
  have "fillna ''Unknown'' (astype_str cell) = (case cell of None \<Rightarrow> ''nan'' | Some s \<Rightarrow> s)"
    by (cases cell) simp_all
  moreover have "normalize [unnamed_row] =
     [\<lparr>D_MachineName = ''nan'', D_StateDesc = ''nan'', D_MsgCode = ''nan'',
       D_MsgDesc = ''nan'', Fault_Description = ''nan (nan)'',
       T_TotalDuration = 1, T_TotalOccur = 1\<rparr>]"
    by code_simp
  ultimately show ?thesis by (rule conjI)
qed



lemma list_index_mem: "x \<in> set xs \<Longrightarrow> \<exists>i. list_index x xs = Inr i"
  by (induction xs) auto

lemma index_sheet_written: "''Index'' \<in> set (sheetnames (write_pass argsort df))"
  by (simp add: write_pass_def Let_def to_excel_def on_sheet_def case_prod_beta)




subsection \<open>Aggregation\<close>


lemma groupby_size_exact:
  "(k, n) \<in> set (groupby_size key df) \<longleftrightarrow>
     k \<in> key ` set df \<and> n = length (filter (\<lambda>r. key r = k) df)"
  by (auto simp: groupby_size_def group_keys_def)

lemma strict_keys_groupby:
  "sorted_wrt (\<lambda>a b. fst a < fst b) (groupby_sum key val df)"
proof -
  have "sorted_wrt (<) (group_keys key df)"
    by (simp add: group_keys_def strict_sorted_iff)
  then have "sorted_wrt (<) (map fst (groupby_sum key val df))"
    by (simp add: groupby_sum_def comp_def)
  then show ?thesis by (simp add: sorted_wrt_map)
qed


text \<open>
  C1 (the script does otherwise): the Unique Faults table gives each machine the number
  of its cleaned rows. On the scenario's rows that is 2 for machine \<open>M1\<close>, which has
  one distinct aggregate key.
\<close>

theorem unique_faults_counts_rows:
  "unique_faults_per_station df =
     map (\<lambda>m. (m, length (filter (\<lambda>r. D_MachineName r = m) df)))
       (sort (remdups (map D_MachineName df)))
   \<and> unique_faults_per_station (normalize scenario_rows) = [(''M1'', 2)]
   \<and> spec_unique_fault_count (normalize scenario_rows) ''M1'' = 1"
proof -
  have "unique_faults_per_station df =
     map (\<lambda>m. (m, length (filter (\<lambda>r. D_MachineName r = m) df)))
       (sort (remdups (map D_MachineName df)))"
    by (simp add: unique_faults_per_station_def groupby_size_def group_keys_def)
  moreover have "unique_faults_per_station (normalize scenario_rows) = [(''M1'', 2)]
      \<and> spec_unique_fault_count (normalize scenario_rows) ''M1'' = 1"
    by code_simp
  ultimately show ?thesis by (rule conjI)
qed


subsection \<open>Sorting and the ten best\<close>

lemma argsort_set:
  assumes "argsort_desc argsort"
  shows "set (argsort vs) = {0..<length vs}"
proof -
  from assms have "mset (argsort vs) = mset [0..<length vs]"
    by (simp add: argsort_desc_def)
  then have "set (argsort vs) = set [0..<length vs]"
    by (rule mset_eq_setD)
  then show ?thesis by simp
qed



lemma sorted_sort_values:
  assumes "argsort_desc argsort"
  shows "sorted_wrt (\<lambda>a b. by b \<le> by a) (sort_values argsort by df)"
proof -
  let ?vs = "map by df"
  have s: "sorted_wrt (\<lambda>a b. b \<le> a) (map (\<lambda>i. ?vs ! i) (argsort ?vs))"
    using assms by (simp add: argsort_desc_def)
  have "map (\<lambda>i. ?vs ! i) (argsort ?vs) = map by (sort_values argsort by df)"
    using argsort_set [OF assms, of ?vs] by (auto simp: sort_values_def)
  with s show ?thesis by (simp add: sorted_wrt_map)
qed

text \<open>The stable index sort is an index sort.\<close>

lemma stable_argsort_desc: "argsort_desc stable_argsort"
proof -
  have "sorted_wrt (\<lambda>a b. b \<le> a) (map (\<lambda>i. vs ! i) (stable_argsort vs))" for vs :: "rat list"
  proof -
    have "sorted (map (\<lambda>i. (- (vs ! i), i)) (stable_argsort vs))"
      by (simp add: stable_argsort_def)
    then have "sorted_wrt (\<lambda>i j. (- (vs ! i), i) \<le> (- (vs ! j), j)) (stable_argsort vs)"
      by (simp add: sorted_wrt_map)
    then have "sorted_wrt (\<lambda>i j. vs ! j \<le> vs ! i) (stable_argsort vs)"
      by (rule sorted_wrt_mono_rel [rotated]) (auto simp: less_eq_prod_def)
    then show ?thesis by (simp add: sorted_wrt_map)
  qed
  then show ?thesis
    by (simp add: argsort_desc_def stable_argsort_def)
qed

lemma length_top10: "length (top10 argsort agg machine) \<le> 10"
  by (simp add: top10_def)

lemma sorted_top10:
  assumes "argsort_desc argsort"
  shows "sorted_wrt (\<lambda>a b. snd b \<le> snd a) (top10 argsort agg machine)"
  unfolding top10_def by (intro sorted_wrt_take sorted_sort_values assms)

text \<open>
  Under the stable index sort, rows in ascending order of their keys come out with equal
  sums still in ascending order of their keys.
\<close>

lemma stable_sort_values_ties:
  assumes "sorted_wrt (\<lambda>a b. fst a < fst b) (rows :: ('k::linorder \<times> rat) list)"
  shows "sorted_wrt (\<lambda>a b. snd b < snd a \<or> (snd a = snd b \<and> fst a < fst b))
           (sort_values stable_argsort snd rows)"
proof -
  let ?vs = "map snd rows"
  let ?idx = "stable_argsort ?vs"
  have d: "distinct ?idx" by (simp add: stable_argsort_def)
  have s: "sorted (map (\<lambda>i. (- (?vs ! i), i)) ?idx)" by (simp add: stable_argsort_def)
  have r: "set ?idx = {0..<length rows}" by (simp add: stable_argsort_def)
  have "sorted_wrt (\<lambda>i j. snd (rows ! j) < snd (rows ! i)
          \<or> (snd (rows ! i) = snd (rows ! j) \<and> fst (rows ! i) < fst (rows ! j))) ?idx"
    unfolding sorted_wrt_iff_nth_less
  proof (intro allI impI)
    fix p q assume pq: "p < q" "q < length ?idx"
    let ?i = "?idx ! p" and ?j = "?idx ! q"
    from pq have ne: "?i \<noteq> ?j" using d by (simp add: nth_eq_iff_index_eq)
    from pq r have ir: "?i < length rows" "?j < length rows"
      by (metis atLeastLessThan_iff nth_mem order_less_trans)+
    from s pq have "(- (?vs ! ?i), ?i) \<le> (- (?vs ! ?j), ?j)"
      by (simp add: sorted_wrt_map sorted_wrt_iff_nth_less)
    with ne ir have "snd (rows ! ?j) < snd (rows ! ?i)
        \<or> (snd (rows ! ?i) = snd (rows ! ?j) \<and> ?i < ?j)"
      by (auto simp: less_eq_prod_def)
    moreover have "fst (rows ! ?i) < fst (rows ! ?j)" if "?i < ?j"
      using assms that ir by (simp add: sorted_wrt_iff_nth_less)
    ultimately show "snd (rows ! ?j) < snd (rows ! ?i)
        \<or> (snd (rows ! ?i) = snd (rows ! ?j) \<and> fst (rows ! ?i) < fst (rows ! ?j))"
      by blast
  qed
  then show ?thesis by (simp add: sort_values_def sorted_wrt_map)
qed

lemma stable_top10_ties:
  "sorted_wrt (\<lambda>a b. snd b < snd a \<or> (snd a = snd b \<and> fst a < fst b))
     (top10 stable_argsort (groupby_sum key val df) machine)"
  unfolding top10_def
  by (intro sorted_wrt_take stable_sort_values_ties sorted_wrt_filter strict_keys_groupby)

text \<open>
  C3, as stated, fails: two keys of one machine with equal sums, the later code reported
  first. The aggregated table has them in ascending order of the key and the ranked list
  keeps them so, where the order of first appearance is the other one. No index sort can
  mend it: the same two rows in the other order give the same aggregated table.
\<close>

theorem top10_ties_counterexample:
  "top10 stable_argsort (aggregated_df_total_duration (normalize tie_rows)) ''M''
     = [((''M'', ''S'', ''c1'', ''d'', ''d (c1)''), 5), ((''M'', ''S'', ''c2'', ''d'', ''d (c2)''), 5)]
   \<and> spec_top10 T_TotalDuration (normalize tie_rows) ''M''
     = [((''M'', ''S'', ''c2'', ''d'', ''d (c2)''), 5), ((''M'', ''S'', ''c1'', ''d'', ''d (c1)''), 5)]
   \<and> top10 stable_argsort (aggregated_df_total_duration (normalize tie_rows)) ''M''
     \<noteq> spec_top10 T_TotalDuration (normalize tie_rows) ''M''
   \<and> aggregated_df_total_duration (normalize (rev tie_rows))
     = aggregated_df_total_duration (normalize tie_rows)
   \<and> spec_top10 T_TotalDuration (normalize (rev tie_rows)) ''M''
     \<noteq> spec_top10 T_TotalDuration (normalize tie_rows) ''M''"
  by code_simp

text \<open>
  C3, amended: for every machine, each of the two ranked lists has at most ten rows and
  is sorted by descending sum. The order of rows with equal sums is the one the index
  sort leaves; under a stable index sort it is the order of the aggregated table, which
  is the ascending order of the keys.
\<close>

theorem top10_ranked:
  assumes "argsort_desc argsort"
  shows "length (top10 argsort (aggregated_df_total_duration df) machine) \<le> 10
   \<and> sorted_wrt (\<lambda>a b. snd b \<le> snd a) (top10 argsort (aggregated_df_total_duration df) machine)
   \<and> length (top10 argsort (aggregated_df_total_occur df) machine) \<le> 10
   \<and> sorted_wrt (\<lambda>a b. snd b \<le> snd a) (top10 argsort (aggregated_df_total_occur df) machine)
   \<and> sorted_wrt (\<lambda>a b. snd b < snd a \<or> (snd a = snd b \<and> fst a < fst b))
        (top10 stable_argsort (aggregated_df_total_duration df) machine)
   \<and> sorted_wrt (\<lambda>a b. snd b < snd a \<or> (snd a = snd b \<and> fst a < fst b))
        (top10 stable_argsort (aggregated_df_total_occur df) machine)"
  using assms
  by (simp add: length_top10 sorted_top10 stable_top10_ties
      aggregated_df_total_duration_def aggregated_df_total_occur_def)

text \<open>The stable index sort on the two tied rows.\<close>

theorem top10_ranked_witness:
  "argsort_desc stable_argsort
   \<and> length (top10 stable_argsort (aggregated_df_total_duration (normalize tie_rows)) ''M'') \<le> 10
   \<and> sorted_wrt (\<lambda>a b. snd b \<le> snd a)
        (top10 stable_argsort (aggregated_df_total_duration (normalize tie_rows)) ''M'')
   \<and> sorted_wrt (\<lambda>a b. snd b < snd a \<or> (snd a = snd b \<and> fst a < fst b))
        (top10 stable_argsort (aggregated_df_total_duration (normalize tie_rows)) ''M'')"
  using top10_ranked [OF stable_argsort_desc, of "normalize tie_rows" "''M''"] stable_argsort_desc
  by simp








subsection \<open>The order of the sheets\<close>

lemma sheetnames_to_excel:
  "sheetnames wb = unique ns \<Longrightarrow> sheetnames (to_excel fr name n wb) = unique (ns @ [name])"
  by (simp add: to_excel_def unique_snoc)

lemma sheetnames_on_sheet: "sheetnames (on_sheet name op wb) = sheetnames wb"
  by (simp add: on_sheet_def)

text \<open>The sheets after the write pass: those of the machines, then the three summaries.\<close>

lemma sheetnames_write_pass:
  "sheetnames (write_pass argsort df) =
     unique (map sanitize_sheet_name (unique_machines df)
             @ [''Index'', ''Unique Faults'', ''Total Duration''])"
proof -
  obtain wb index where m: "machine_sheets argsort df = (wb, index)"
    by (cases "machine_sheets argsort df")
  then have 0: "sheetnames wb = unique (map sanitize_sheet_name (unique_machines df))"
    using machine_sheetnames_eq [of argsort df] by simp
  let ?w1 = "to_excel (index_frame index) ''Index'' 0 wb"
  let ?w2 = "?w1\<lparr>written := written ?w1 @ index_links index\<rparr>"
  have 2: "sheetnames ?w2 = unique (map sanitize_sheet_name (unique_machines df) @ [''Index''])"
    using sheetnames_to_excel [OF 0] by simp
  have 3: "sheetnames (to_excel fr3 ''Unique Faults'' 0 ?w2)
      = unique ((map sanitize_sheet_name (unique_machines df) @ [''Index''])
          @ [''Unique Faults''])" for fr3
    by (rule sheetnames_to_excel [OF 2])
  have 4: "sheetnames (to_excel fr4 ''Total Duration'' 0 (to_excel fr3 ''Unique Faults'' 0 ?w2))
      = unique (((map sanitize_sheet_name (unique_machines df) @ [''Index''])
          @ [''Unique Faults'']) @ [''Total Duration''])" for fr3 fr4
    by (rule sheetnames_to_excel [OF 3])
  show ?thesis
    unfolding write_pass_def Let_def m prod.case sheetnames_on_sheet 4 by simp
qed

text \<open>
  C2 (the script does otherwise): the sheets of the saved workbook are those of the
  machines, in their order, and behind them \<open>Index\<close>, \<open>Unique Faults\<close> and
  \<open>Total Duration\<close>; the last step makes the Index sheet the active sheet and moves
  nothing. On the scenario's rows the sheets are \<open>M1\<close>, \<open>Index\<close>, \<open>Unique Faults\<close>,
  \<open>Total Duration\<close>, and the active sheet is the one at position 1.
\<close>

theorem index_sheet_not_first:
  "map_sum id sheetnames (process_faults_file argsort rows) =
     Inr (unique (map sanitize_sheet_name (sort (remdups (map D_MachineName (normalize rows))))
                  @ [''Index'', ''Unique Faults'', ''Total Duration'']))
   \<and> map_sum id (\<lambda>wb. (sheetnames wb, active wb))
        (process_faults_file stable_argsort scenario_rows)
      = Inr ([''M1'', ''Index'', ''Unique Faults'', ''Total Duration''], 1)"
proof -
  obtain i where "list_index ''Index'' (sheetnames (write_pass argsort (normalize rows))) = Inr i"
    using list_index_mem [OF index_sheet_written] by blast
  then have "map_sum id sheetnames (process_faults_file argsort rows) =
     Inr (unique (map sanitize_sheet_name (sort (remdups (map D_MachineName (normalize rows))))
                  @ [''Index'', ''Unique Faults'', ''Total Duration'']))"
    by (simp add: process_faults_file_def set_index_active_def sheetnames_write_pass
        unique_machines_eq)
  moreover have "map_sum id (\<lambda>wb. (sheetnames wb, active wb))
        (process_faults_file stable_argsort scenario_rows)
      = Inr ([''M1'', ''Index'', ''Unique Faults'', ''Total Duration''], 1)"
    by code_simp
  ultimately show ?thesis by (rule conjI)
qed

subsection \<open>Two runs\<close>



end
